theory Spec2Isabelle
  imports Main "HOL-Library.Word"
begin

section \<open>The JSON / simplified-JSON tokenizer of foundation/json.c\<close>

text \<open>
  The parser of \<^verbatim>\<open>src/foundation/json.c\<close> reads a byte buffer of a declared length and
  fills a caller-supplied array of tokens. Positions and lengths are \<^verbatim>\<open>size_t\<close>
  (64 bits), token indices and token fields are \<^verbatim>\<open>unsigned int\<close> (32 bits); both wrap
  around as in C.
\<close>

subsection \<open>Data model\<close>

type_synonym size_t = "64 word"
type_synonym uint = "32 word"

text \<open>
  Modelled from the spec: the enumeration \<^verbatim>\<open>json_type_t\<close> and the structure
  \<^verbatim>\<open>json_token_t\<close> are declared in foundation/types.h, which is not part of the sources
  at hand. The spec (section 3) lists the kinds \<open>Undefined | Object | Array | Primitive | String\<close>
  and the fields \<open>key_span\<close> (\<^verbatim>\<open>id\<close>, \<^verbatim>\<open>id_length\<close>), \<open>value_span\<close>
  (\<^verbatim>\<open>value\<close>, \<^verbatim>\<open>value_length\<close>), \<open>first_child\<close> (\<^verbatim>\<open>child\<close>) and \<open>next_sibling\<close>
  (\<^verbatim>\<open>sibling\<close>); json.c stores every field through a cast to \<^verbatim>\<open>unsigned int\<close>.
\<close>

datatype json_type_t =
  JSON_UNDEFINED | JSON_OBJECT | JSON_ARRAY | JSON_STRING | JSON_PRIMITIVE

record json_token_t =
  tok_id :: uint
  tok_id_length :: uint
  tok_value :: uint
  tok_value_length :: uint
  tok_child :: uint
  tok_sibling :: uint
  tok_type :: json_type_t

text \<open>
  Modelled from the spec: \<^verbatim>\<open>STRING_NPOS\<close> (foundation/types.h) is the failure sentinel, the
  maximum representable length.
\<close>

definition STRING_NPOS :: size_t where
  "STRING_NPOS = - 1"

text \<open>
  The token array is memory owned by the caller: a store from slot numbers to tokens, of
  which the parser may touch the slots below \<open>capacity\<close>. The initial contents are
  whatever the caller left there.
\<close>

type_synonym token_store = "nat \<Rightarrow> json_token_t"

text \<open>
  The input is the list of bytes that can be read starting at the \<^verbatim>\<open>buffer\<close> pointer; the
  declared length \<open>len\<close> is passed separately, as in the C signature. A read at an index
  outside the readable bytes is undefined behaviour in C and an error value here.
\<close>

datatype error = OutOfBounds nat

definition rd :: "string \<Rightarrow> size_t \<Rightarrow> error + char" where
  "rd buffer pos =
     (if unat pos < length buffer then Inr (buffer ! unat pos)
      else Inl (OutOfBounds (unat pos)))"

subsection \<open>Token access (json.c, lines 15 to 59)\<close>

text \<open>\<^verbatim>\<open>get_token\<close> returns the slot of \<open>index\<close>, or the null pointer beyond the capacity.\<close>

definition get_token :: "size_t \<Rightarrow> uint \<Rightarrow> nat option" where
  "get_token capacity index =
     (if ucast index < capacity then Some (unat index) else None)"

definition is_valid_token :: "token_store \<Rightarrow> size_t \<Rightarrow> uint \<Rightarrow> bool" where
  "is_valid_token tokens capacity index =
     (case get_token capacity index of
        Some i \<Rightarrow> tok_type (tokens i) \<noteq> JSON_UNDEFINED
      | None \<Rightarrow> True)"

definition set_token_primitive ::
  "token_store \<Rightarrow> size_t \<Rightarrow> uint \<Rightarrow> json_type_t \<Rightarrow> size_t \<Rightarrow> size_t \<Rightarrow> token_store" where
  "set_token_primitive tokens capacity current type val val_length =
     (case get_token capacity current of
        Some i \<Rightarrow> tokens(i := (tokens i)\<lparr>tok_type := type, tok_child := 0, tok_sibling := 0,
                     tok_value := ucast val, tok_value_length := ucast val_length\<rparr>)
      | None \<Rightarrow> tokens)"

definition set_token_complex ::
  "token_store \<Rightarrow> size_t \<Rightarrow> uint \<Rightarrow> json_type_t \<Rightarrow> token_store" where
  "set_token_complex tokens capacity current type =
     (case get_token capacity current of
        Some i \<Rightarrow> tokens(i := (tokens i)\<lparr>tok_type := type, tok_child := current + 1,
                     tok_sibling := 0, tok_value := 0, tok_value_length := 0\<rparr>)
      | None \<Rightarrow> tokens)"

definition set_token_id ::
  "token_store \<Rightarrow> size_t \<Rightarrow> uint \<Rightarrow> size_t \<Rightarrow> size_t \<Rightarrow> token_store" where
  "set_token_id tokens capacity current ident ident_length =
     (case get_token capacity current of
        Some i \<Rightarrow> tokens(i := (tokens i)\<lparr>tok_id := ucast ident,
                     tok_id_length := ucast ident_length\<rparr>)
      | None \<Rightarrow> tokens)"

text \<open>
  The statement \<^verbatim>\<open>if ((token = get_token(tokens, capacity, last))) token->sibling = x;\<close>
  of \<^verbatim>\<open>parse_object\<close> (lines 184, 218) and \<^verbatim>\<open>parse_array\<close> (line 246).
\<close>

definition set_token_sibling ::
  "token_store \<Rightarrow> size_t \<Rightarrow> uint \<Rightarrow> uint \<Rightarrow> token_store" where
  "set_token_sibling tokens capacity last_tok sib =
     (case get_token capacity last_tok of
        Some i \<Rightarrow> tokens(i := (tokens i)\<lparr>tok_sibling := sib\<rparr>)
      | None \<Rightarrow> tokens)"

subsection \<open>Lexical primitives (json.c, lines 61 to 150)\<close>

definition is_whitespace :: "char \<Rightarrow> bool" where
  "is_whitespace c \<longleftrightarrow> c = CHR '' '' \<or> c = CHR 0x09 \<or> c = CHR 0x0A \<or> c = CHR 0x0D"

definition is_token_delimiter :: "char \<Rightarrow> bool" where
  "is_token_delimiter c \<longleftrightarrow> is_whitespace c \<or> c = CHR '']'' \<or> c = CHR ''}'' \<or> c = CHR '',''"

function skip_whitespace :: "string \<Rightarrow> size_t \<Rightarrow> size_t \<Rightarrow> error + size_t" where
  "skip_whitespace buffer len pos =
     (if pos < len then
        (case rd buffer pos of
           Inl e \<Rightarrow> Inl e
         | Inr c \<Rightarrow>
             if \<not> is_whitespace c then Inr pos
             else skip_whitespace buffer len (pos + 1))
      else Inr pos)"
  by pat_completeness auto
termination
proof (relation "measure (\<lambda>(buffer, len, pos). unat len - unat pos)", goal_cases)
  case 1
  show ?case by simp
next
  case (2 buffer len pos c)
  then have "pos < len" by simp
  then have "unat len - unat (pos + 1) < unat len - unat pos" by unat_arith
  then show ?case by simp
qed

text \<open>
  The digits test of the \<^verbatim>\<open>\uXXXX\<close> escape (lines 102 to 104) compares byte values; a
  byte above 127 fails it whether \<^verbatim>\<open>char\<close> is signed or not.
\<close>

definition is_hex_digit :: "char \<Rightarrow> bool" where
  "is_hex_digit c \<longleftrightarrow>
     (48 \<le> (of_char c :: nat) \<and> (of_char c :: nat) \<le> 57) \<or>
     (65 \<le> (of_char c :: nat) \<and> (of_char c :: nat) \<le> 70) \<or>
     (97 \<le> (of_char c :: nat) \<and> (of_char c :: nat) \<le> 102)"

text \<open>
  The \<^verbatim>\<open>for\<close> loop of lines 100 to 106: \<open>Inr None\<close> is the early
  \<^verbatim>\<open>return STRING_NPOS\<close>, \<open>Inr (Some pos)\<close> the position at which the loop ends. The byte
  at \<open>pos + 1\<close> is read after the test \<open>pos < len\<close> on the position before it.
\<close>

function u_escape :: "string \<Rightarrow> size_t \<Rightarrow> size_t \<Rightarrow> nat \<Rightarrow> error + size_t option" where
  "u_escape buffer len pos esc =
     (if esc < 4 \<and> pos < len then
        (case rd buffer (pos + 1) of
           Inl e \<Rightarrow> Inl e
         | Inr c \<Rightarrow>
             if \<not> is_hex_digit c then Inr None
             else u_escape buffer len (pos + 1) (esc + 1))
      else Inr (Some pos))"
  by pat_completeness auto
termination
  by (relation "measure (\<lambda>(buffer, len, pos, esc). 4 - esc)") auto

text \<open>
  \<^verbatim>\<open>parse_string\<close>: the loop of lines 85 to 112, with \<open>start\<close> the position at entry.
  After \<^verbatim>\<open>++pos\<close> a backslash is followed by the \<^verbatim>\<open>switch\<close> on the next byte; the
  byte that follows the backslash is not skipped, the loop reads it again.
\<close>

definition is_simple_escape :: "char \<Rightarrow> bool" where
  "is_simple_escape c \<longleftrightarrow>
     c = CHR 0x22 \<or> c = CHR ''/'' \<or> c = CHR 0x5C \<or> c = CHR ''b'' \<or>
     c = CHR ''f'' \<or> c = CHR ''r'' \<or> c = CHR ''n'' \<or> c = CHR ''t''"

function parse_string_loop ::
  "string \<Rightarrow> size_t \<Rightarrow> size_t \<Rightarrow> size_t \<Rightarrow> bool \<Rightarrow> error + size_t" where
  "parse_string_loop buffer len start pos simple =
     (if pos < len then
        (case rd buffer pos of
           Inl e \<Rightarrow> Inl e
         | Inr c \<Rightarrow>
             if simple \<and> (is_token_delimiter c \<or> c = CHR ''='' \<or> c = CHR '':'') then
               Inr (pos - start)
             else if c = CHR 0x22 then Inr (pos - start)
             else if c = CHR 0x5C \<and> pos + 1 < len then
               (case rd buffer (pos + 1) of
                  Inl e \<Rightarrow> Inl e
                | Inr d \<Rightarrow>
                    if is_simple_escape d then
                      parse_string_loop buffer len start (pos + 1) simple
                    else if d = CHR ''u'' then
                      (case u_escape buffer len (pos + 1) 0 of
                         Inl e \<Rightarrow> Inl e
                       | Inr None \<Rightarrow> Inr STRING_NPOS
                       | Inr (Some pos') \<Rightarrow> parse_string_loop buffer len start pos' simple)
                    else Inr STRING_NPOS)
             else parse_string_loop buffer len start (pos + 1) simple)
      else Inr (if simple then pos - start else STRING_NPOS))"
  by pat_completeness auto
termination
proof -
  have bounds: "u_escape buffer len pos esc = Inr (Some pos') \<Longrightarrow> pos \<le> len \<Longrightarrow> pos \<le> pos'"
    for buffer len pos esc pos'
  proof (induction buffer len pos esc rule: u_escape.induct)
    case (1 buffer len pos esc)
    show ?case
    proof (cases "esc < 4 \<and> pos < len")
      case True
      then have lt: "pos < len" by simp
      from "1.prems" True obtain c where
        c: "rd buffer (pos + 1) = Inr c" "is_hex_digit c"
        and rec: "u_escape buffer len (pos + 1) (esc + 1) = Inr (Some pos')"
        by (subst (asm) u_escape.simps) (auto split: sum.splits if_splits)
      from lt have le1: "pos + 1 \<le> len" and step: "pos \<le> pos + 1" by unat_arith+
      from "1.IH" [OF True c(1) _ rec le1] c(2) have "pos + 1 \<le> pos'" by simp
      with step show ?thesis by auto
    next
      case False
      with "1.prems" show ?thesis
        by (subst (asm) u_escape.simps) auto
    qed
  qed
  have step: "unat len - unat (pos + 1) < unat len - unat pos" if "pos < len"
    for pos len :: size_t
    using that by unat_arith
  show ?thesis
  proof (relation "measure (\<lambda>(buffer, len, start, pos, simple). unat len - unat pos)", goal_cases)
    case 1
    show ?case by simp
  next
    case (2 buffer len start pos simple c d)
    then show ?case by (simp add: step)
  next
    case (3 buffer len start pos simple c d opt pos')
    then have lt: "pos < len" and lt1: "pos + 1 < len" by auto
    from 3 have "u_escape buffer len (pos + 1) 0 = Inr (Some pos')" by simp
    from bounds [OF this] lt1 have "pos + 1 \<le> pos'" by simp
    with lt have "unat len - unat pos' < unat len - unat pos" by unat_arith
    then show ?case by simp
  next
    case (4 buffer len start pos simple c)
    then show ?case by (simp add: step)
  qed
qed

declare skip_whitespace.simps [simp del] u_escape.simps [simp del]
  parse_string_loop.simps [simp del]

definition parse_string :: "string \<Rightarrow> size_t \<Rightarrow> size_t \<Rightarrow> bool \<Rightarrow> error + size_t" where
  "parse_string buffer len pos simple = parse_string_loop buffer len pos pos simple"

text \<open>
  \<^verbatim>\<open>parse_number\<close>: the loop of lines 122 to 148 with its three flags. The chain of
  \<^verbatim>\<open>else if\<close> is kept in the order of the source. The comparisons \<^verbatim>\<open>c < '0'\<close> and
  \<^verbatim>\<open>c > '9'\<close> are on byte values; a byte above 127 satisfies one of them whether
  \<^verbatim>\<open>char\<close> is signed or not.
\<close>

function parse_number_loop ::
  "string \<Rightarrow> size_t \<Rightarrow> size_t \<Rightarrow> size_t \<Rightarrow> bool \<Rightarrow> bool \<Rightarrow> bool \<Rightarrow> error + size_t" where
  "parse_number_loop buffer len start pos has_dot has_digit has_exp =
     (if pos < len then
        (case rd buffer pos of
           Inl e \<Rightarrow> Inl e
         | Inr c \<Rightarrow>
             if is_token_delimiter c then Inr (pos - start)
             else if c = CHR ''-'' \<and> \<not> (start = pos) then Inr STRING_NPOS
             else if c = CHR ''.'' then
               (if has_dot \<or> has_exp then Inr STRING_NPOS
                else parse_number_loop buffer len start (pos + 1) True has_digit has_exp)
             else if c = CHR ''e'' \<or> c = CHR ''E'' then
               (if \<not> has_digit \<or> has_exp then Inr STRING_NPOS
                else if pos + 1 < len then
                  (case rd buffer (pos + 1) of
                     Inl e \<Rightarrow> Inl e
                   | Inr d \<Rightarrow>
                       if d = CHR ''+'' \<or> d = CHR ''-'' then
                         parse_number_loop buffer len start (pos + 1 + 1) has_dot has_digit True
                       else parse_number_loop buffer len start (pos + 1) has_dot has_digit True)
                else parse_number_loop buffer len start (pos + 1) has_dot has_digit True)
             else if (of_char c :: nat) < 48 \<or> (of_char c :: nat) > 57 then Inr STRING_NPOS
             else parse_number_loop buffer len start (pos + 1) has_dot True has_exp)
      else Inr (pos - start))"
  by pat_completeness auto
termination
proof -
  have step: "unat len - unat (pos + 1) < unat len - unat pos" if "pos < len"
    for pos len :: size_t
    using that by unat_arith
  have step2: "unat len - unat (pos + 1 + 1) < unat len - unat pos" if "pos < len" "pos + 1 < len"
    for pos len :: size_t
    using that by unat_arith
  show ?thesis
    by (relation "measure (\<lambda>(buffer, len, start, pos, d, g, e). unat len - unat pos)")
       (simp, (simp only: in_measure prod.case, (rule step step2; assumption))+)
qed

declare parse_number_loop.simps [simp del]

definition parse_number :: "string \<Rightarrow> size_t \<Rightarrow> size_t \<Rightarrow> error + size_t" where
  "parse_number buffer len pos = parse_number_loop buffer len pos pos False False False"

subsection \<open>Parser state\<close>

text \<open>
  The token array and the counter behind the pointer \<^verbatim>\<open>unsigned int* current\<close> are the
  state that the three mutually recursive parsers share and update in place. The counter is
  kept as the number of increments made so far, and every read of \<^verbatim>\<open>*current\<close> takes it
  modulo \<open>2 ^ 32\<close> (\<open>cur\<close> below), which is the value the 32-bit variable holds.
\<close>

record parse_state =
  tokens :: token_store
  current :: nat

definition cur :: "parse_state \<Rightarrow> uint" where
  "cur s = word_of_nat (current s)"

text \<open>The two statements \<^verbatim>\<open>set_token_primitive(..., *current, ...); ++(*current);\<close>.\<close>

definition emit_primitive ::
  "parse_state \<Rightarrow> size_t \<Rightarrow> json_type_t \<Rightarrow> size_t \<Rightarrow> size_t \<Rightarrow> parse_state" where
  "emit_primitive s capacity type val val_length =
     s\<lparr>tokens := set_token_primitive (tokens s) capacity (cur s) type val val_length,
       current := current s + 1\<rparr>"

text \<open>The two statements \<^verbatim>\<open>set_token_complex(..., *current, type); ++(*current);\<close>.\<close>

definition emit_complex :: "parse_state \<Rightarrow> size_t \<Rightarrow> json_type_t \<Rightarrow> parse_state" where
  "emit_complex s capacity type =
     s\<lparr>tokens := set_token_complex (tokens s) capacity (cur s) type,
       current := current s + 1\<rparr>"

subsection \<open>The branches of parse_value without recursion (json.c, lines 282 to 324)\<close>

text \<open>
  Lines 207 to 208 and 322 to 323: the terminating quote is counted into \<open>string\<close> in strict
  mode always, in simplified mode when the byte at \<open>pos + string\<close> is inside the declared
  length and is a quote.
\<close>

definition skip_terminating_quote ::
  "string \<Rightarrow> size_t \<Rightarrow> size_t \<Rightarrow> size_t \<Rightarrow> bool \<Rightarrow> error + size_t" where
  "skip_terminating_quote buffer len pos string simple =
     (if \<not> simple then Inr (string + 1)
      else if pos + string < len then
        (case rd buffer (pos + string) of
           Inl e \<Rightarrow> Inl e
         | Inr c \<Rightarrow> Inr (if c = CHR 0x22 then string + 1 else string))
      else Inr string)"

text \<open>
  Lines 282 to 289, with \<open>pos\<close> already past the first character of the number as in the
  source: \<open>Inr (STRING_NPOS, s)\<close> is the failure return, with the state unchanged.
\<close>

definition parse_value_number ::
  "string \<Rightarrow> size_t \<Rightarrow> size_t \<Rightarrow> parse_state \<Rightarrow> size_t \<Rightarrow> error + size_t \<times> parse_state" where
  "parse_value_number buffer len pos s capacity =
     (case parse_number buffer len (pos - 1) of
        Inl e \<Rightarrow> Inl e
      | Inr string \<Rightarrow>
          if string = STRING_NPOS then Inr (STRING_NPOS, s)
          else Inr (pos + string - 1, emit_primitive s capacity JSON_PRIMITIVE (pos - 1) string))"

text \<open>
  Modelled from the spec: \<^verbatim>\<open>string_equal\<close> (foundation/string.h) is not part of the sources
  at hand; it compares two byte strings given with their lengths, "exactly match" in the
  words of section 4.2. Its first argument is read from the buffer here.
\<close>

definition string_equal :: "string \<Rightarrow> string \<Rightarrow> bool" where
  "string_equal lhs rhs \<longleftrightarrow> lhs = rhs"

fun rd_bytes :: "string \<Rightarrow> size_t \<Rightarrow> nat \<Rightarrow> error + string" where
  "rd_bytes buffer pos 0 = Inr []"
| "rd_bytes buffer pos (Suc k) =
     (case rd buffer pos of
        Inl e \<Rightarrow> Inl e
      | Inr c \<Rightarrow>
          (case rd_bytes buffer (pos + 1) k of
             Inl e \<Rightarrow> Inl e
           | Inr cs \<Rightarrow> Inr (c # cs)))"

text \<open>
  The condition of lines 293 to 294 and 299 to 300 after the test on \<open>c\<close>, for the rest
  \<open>lit\<close> of the literal (\<open>rue\<close> or \<open>alse\<close>):
  \<^verbatim>\<open>(length - pos >= k + 1) && string_equal(buffer + pos, k, lit, k) && is_token_delimiter(buffer[pos + k])\<close>,
  evaluated left to right.
\<close>

definition match_literal :: "string \<Rightarrow> size_t \<Rightarrow> size_t \<Rightarrow> string \<Rightarrow> error + bool" where
  "match_literal buffer len pos lit =
     (if len - pos \<ge> of_nat (length lit) + 1 then
        (case rd_bytes buffer pos (length lit) of
           Inl e \<Rightarrow> Inl e
         | Inr bs \<Rightarrow>
             if string_equal bs lit then
               (case rd buffer (pos + of_nat (length lit)) of
                  Inl e \<Rightarrow> Inl e
                | Inr d \<Rightarrow> Inr (is_token_delimiter d))
             else Inr False)
      else Inr False)"

text \<open>
  Lines 316 to 324: the string token whose text starts at \<open>pos\<close>.
\<close>

definition parse_value_string_at ::
  "string \<Rightarrow> size_t \<Rightarrow> size_t \<Rightarrow> parse_state \<Rightarrow> size_t \<Rightarrow> bool
     \<Rightarrow> error + size_t \<times> parse_state" where
  "parse_value_string_at buffer len pos s capacity simple =
     (case parse_string buffer len pos simple of
        Inl e \<Rightarrow> Inl e
      | Inr string \<Rightarrow>
          if string = STRING_NPOS then Inr (STRING_NPOS, s)
          else
            (case skip_terminating_quote buffer len pos string simple of
               Inl e \<Rightarrow> Inl e
             | Inr string' \<Rightarrow>
                 Inr (pos + string', emit_primitive s capacity JSON_STRING pos string)))"

text \<open>
  Lines 309 to 324, the string branch, entered for a quote, for any other character, and by
  falling through from the \<^verbatim>\<open>'t'\<close>/\<^verbatim>\<open>'f'\<close> branch; \<open>pos\<close> is past the character \<open>c\<close>,
  and is moved back onto it when \<open>c\<close> is not a quote (lines 311 to 315).
\<close>

definition parse_value_string ::
  "string \<Rightarrow> size_t \<Rightarrow> size_t \<Rightarrow> char \<Rightarrow> parse_state \<Rightarrow> size_t \<Rightarrow> bool
     \<Rightarrow> error + size_t \<times> parse_state" where
  "parse_value_string buffer len pos c s capacity simple =
     (if c \<noteq> CHR 0x22 \<and> \<not> simple then Inr (STRING_NPOS, s)
      else parse_value_string_at buffer len (if c \<noteq> CHR 0x22 then pos - 1 else pos) s
             capacity simple)"

text \<open>
  Lines 291 to 306, the branch of \<^verbatim>\<open>'t'\<close> and \<^verbatim>\<open>'f'\<close>, which falls through to the
  string branch in simplified mode.
\<close>

definition parse_value_literal ::
  "string \<Rightarrow> size_t \<Rightarrow> size_t \<Rightarrow> char \<Rightarrow> parse_state \<Rightarrow> size_t \<Rightarrow> bool
     \<Rightarrow> error + size_t \<times> parse_state" where
  "parse_value_literal buffer len pos c s capacity simple =
     (case (if c = CHR ''t'' then match_literal buffer len pos ''rue'' else Inr False) of
        Inl e \<Rightarrow> Inl e
      | Inr True \<Rightarrow> Inr (pos + 3, emit_primitive s capacity JSON_PRIMITIVE (pos - 1) 4)
      | Inr False \<Rightarrow>
          (case (if c = CHR ''f'' then match_literal buffer len pos ''alse'' else Inr False) of
             Inl e \<Rightarrow> Inl e
           | Inr True \<Rightarrow> Inr (pos + 4, emit_primitive s capacity JSON_PRIMITIVE (pos - 1) 5)
           | Inr False \<Rightarrow>
               if \<not> simple then Inr (STRING_NPOS, s)
               else parse_value_string buffer len pos c s capacity simple))"

definition is_number_start :: "char \<Rightarrow> bool" where
  "is_number_start c \<longleftrightarrow>
     c = CHR ''-'' \<or> c = CHR ''0'' \<or> c = CHR ''1'' \<or> c = CHR ''2'' \<or> c = CHR ''3'' \<or>
     c = CHR ''4'' \<or> c = CHR ''5'' \<or> c = CHR ''6'' \<or> c = CHR ''7'' \<or> c = CHR ''8'' \<or>
     c = CHR ''9'' \<or> c = CHR ''.''"

subsection \<open>The parts of parse_object around the member value (json.c, lines 190 to 222)\<close>

text \<open>
  Lines 200 to 214: the key that starts at \<open>pos\<close>, up to its separator. The result
  \<open>(None, s')\<close> is \<^verbatim>\<open>return STRING_NPOS\<close>, \<open>(Some pos', s')\<close> the position of the
  separator. The byte at \<open>pos'\<close> is read without a test against the length.
\<close>

definition parse_object_key_at ::
  "string \<Rightarrow> size_t \<Rightarrow> size_t \<Rightarrow> parse_state \<Rightarrow> size_t \<Rightarrow> bool
     \<Rightarrow> error + size_t option \<times> parse_state" where
  "parse_object_key_at buffer len pos s capacity simple =
     (case parse_string buffer len pos simple of
        Inl e \<Rightarrow> Inl e
      | Inr string \<Rightarrow>
          if string = STRING_NPOS then Inr (None, s)
          else
            (case skip_terminating_quote buffer len pos string simple of
               Inl e \<Rightarrow> Inl e
             | Inr string' \<Rightarrow>
                 (case skip_whitespace buffer len (pos + string') of
                    Inl e \<Rightarrow> Inl e
                  | Inr pos' \<Rightarrow>
                      (case rd buffer pos' of
                         Inl e \<Rightarrow> Inl e
                       | Inr d \<Rightarrow>
                           if d \<noteq> CHR '':'' \<and> (\<not> simple \<or> d \<noteq> CHR ''='') then
                             Inr (None,
                               s\<lparr>tokens := set_token_id (tokens s) capacity (cur s) pos string\<rparr>)
                           else
                             Inr (Some pos',
                               s\<lparr>tokens := set_token_id (tokens s) capacity (cur s) pos string\<rparr>)))))"

text \<open>
  Lines 192 to 214: the start of a member; \<open>pos\<close> is past the character \<open>c\<close>, and is
  moved back onto it when \<open>c\<close> is not a quote (lines 194 to 198).
\<close>

definition parse_object_key ::
  "string \<Rightarrow> size_t \<Rightarrow> size_t \<Rightarrow> char \<Rightarrow> uint \<Rightarrow> parse_state \<Rightarrow> size_t \<Rightarrow> bool
     \<Rightarrow> error + size_t option \<times> parse_state" where
  "parse_object_key buffer len pos c last_tok s capacity simple =
     (if last_tok \<noteq> 0 then Inr (None, s)
      else if c \<noteq> CHR 0x22 \<and> \<not> simple then Inr (None, s)
      else parse_object_key_at buffer len (if c \<noteq> CHR 0x22 then pos - 1 else pos) s
             capacity simple)"

text \<open>
  Lines 216 to 221: after the value of a member; the result carries the new \<open>pos\<close> and the
  new \<open>last\<close>.
\<close>

definition parse_object_member_end ::
  "string \<Rightarrow> size_t \<Rightarrow> size_t \<Rightarrow> uint \<Rightarrow> parse_state \<Rightarrow> size_t \<Rightarrow> bool
     \<Rightarrow> error + size_t \<times> uint \<times> parse_state" where
  "parse_object_member_end buffer len pos last_tok s capacity simple =
     (case skip_whitespace buffer len pos of
        Inl e \<Rightarrow> Inl e
      | Inr pos' \<Rightarrow>
          if simple \<and> pos' < len then
            (case rd buffer pos' of
               Inl e \<Rightarrow> Inl e
             | Inr d \<Rightarrow>
                 if d \<noteq> CHR '','' \<and> d \<noteq> CHR ''}'' then
                   Inr (pos', 0,
                        s\<lparr>tokens := set_token_sibling (tokens s) capacity last_tok (cur s)\<rparr>)
                 else Inr (pos', last_tok, s))
          else Inr (pos', last_tok, s))"

subsection \<open>The mutually recursive parsers (json.c, lines 164 to 329)\<close>

text \<open>
  In simplified mode the loop of \<^verbatim>\<open>parse_array\<close> can run forever (a value of length zero
  that is followed by neither a comma nor a bracket is parsed again at the same position),
  so the parsers take fuel: \<open>None\<close> says that the fuel ran out, \<open>Some (Inl e)\<close> that a read
  left the readable bytes, \<open>Some (Inr (pos, s))\<close> that the function returned \<open>pos\<close> in
  state \<open>s\<close>. The loops of \<^verbatim>\<open>parse_object\<close> and \<^verbatim>\<open>parse_array\<close> carry their local
  variable \<^verbatim>\<open>last\<close>. The loop of \<^verbatim>\<open>parse_value\<close> returns in every branch of its first
  iteration.
\<close>

function parse_value ::
    "nat \<Rightarrow> string \<Rightarrow> size_t \<Rightarrow> size_t \<Rightarrow> parse_state \<Rightarrow> size_t \<Rightarrow> bool
       \<Rightarrow> (error + size_t \<times> parse_state) option"
  and parse_object ::
    "nat \<Rightarrow> string \<Rightarrow> size_t \<Rightarrow> size_t \<Rightarrow> parse_state \<Rightarrow> size_t \<Rightarrow> bool
       \<Rightarrow> (error + size_t \<times> parse_state) option"
  and parse_object_loop ::
    "nat \<Rightarrow> string \<Rightarrow> size_t \<Rightarrow> size_t \<Rightarrow> uint \<Rightarrow> parse_state \<Rightarrow> size_t \<Rightarrow> bool
       \<Rightarrow> (error + size_t \<times> parse_state) option"
  and parse_array ::
    "nat \<Rightarrow> string \<Rightarrow> size_t \<Rightarrow> size_t \<Rightarrow> parse_state \<Rightarrow> size_t \<Rightarrow> bool
       \<Rightarrow> (error + size_t \<times> parse_state) option"
  and parse_array_loop ::
    "nat \<Rightarrow> string \<Rightarrow> size_t \<Rightarrow> size_t \<Rightarrow> uint \<Rightarrow> parse_state \<Rightarrow> size_t \<Rightarrow> bool
       \<Rightarrow> (error + size_t \<times> parse_state) option"
where
  "parse_value 0 buffer len pos s capacity simple = None"
| "parse_value (Suc n) buffer len pos s capacity simple =
     (case skip_whitespace buffer len pos of
        Inl e \<Rightarrow> Some (Inl e)
      | Inr pos' \<Rightarrow>
          if pos' < len then
            (case rd buffer pos' of
               Inl e \<Rightarrow> Some (Inl e)
             | Inr c \<Rightarrow>
                 if c = CHR ''{'' then
                   parse_object n buffer len (pos' + 1) (emit_complex s capacity JSON_OBJECT)
                     capacity simple
                 else if c = CHR ''['' then
                   parse_array n buffer len (pos' + 1) (emit_complex s capacity JSON_ARRAY)
                     capacity simple
                 else if is_number_start c then
                   Some (parse_value_number buffer len (pos' + 1) s capacity)
                 else if c = CHR ''t'' \<or> c = CHR ''f'' then
                   Some (parse_value_literal buffer len (pos' + 1) c s capacity simple)
                 else Some (parse_value_string buffer len (pos' + 1) c s capacity simple))
          else Some (Inr (STRING_NPOS, s)))"
| "parse_object 0 buffer len pos s capacity simple = None"
| "parse_object (Suc n) buffer len pos s capacity simple =
     (case skip_whitespace buffer len pos of
        Inl e \<Rightarrow> Some (Inl e)
      | Inr pos' \<Rightarrow> parse_object_loop n buffer len pos' 0 s capacity simple)"
| "parse_object_loop 0 buffer len pos last_tok s capacity simple = None"
| "parse_object_loop (Suc n) buffer len pos last_tok s capacity simple =
     (if pos < len then
        (case rd buffer pos of
           Inl e \<Rightarrow> Some (Inl e)
         | Inr c \<Rightarrow>
             if c = CHR ''}'' then
               (if last_tok \<noteq> 0 \<and> \<not> is_valid_token (tokens s) capacity last_tok then
                  Some (Inr (STRING_NPOS, s))
                else Some (Inr (pos + 1, s)))
             else if c = CHR '','' then
               (if last_tok = 0 \<or> \<not> is_valid_token (tokens s) capacity last_tok then
                  Some (Inr (STRING_NPOS, s))
                else
                  (case skip_whitespace buffer len (pos + 1) of
                     Inl e \<Rightarrow> Some (Inl e)
                   | Inr pos' \<Rightarrow>
                       parse_object_loop n buffer len pos' 0
                         (s\<lparr>tokens := set_token_sibling (tokens s) capacity last_tok (cur s)\<rparr>)
                         capacity simple))
             else
               (case parse_object_key buffer len (pos + 1) c last_tok s capacity simple of
                  Inl e \<Rightarrow> Some (Inl e)
                | Inr (None, s') \<Rightarrow> Some (Inr (STRING_NPOS, s'))
                | Inr (Some pos', s') \<Rightarrow>
                    (case parse_value n buffer len (pos' + 1) s' capacity simple of
                       None \<Rightarrow> None
                     | Some (Inl e) \<Rightarrow> Some (Inl e)
                     | Some (Inr (pos'', s'')) \<Rightarrow>
                         (case parse_object_member_end buffer len pos'' (cur s) s''
                                 capacity simple of
                            Inl e \<Rightarrow> Some (Inl e)
                          | Inr (pos3, last', s3) \<Rightarrow>
                              parse_object_loop n buffer len pos3 last' s3 capacity simple))))
      else Some (Inr (if simple then pos else STRING_NPOS, s)))"
| "parse_array 0 buffer len pos s capacity simple = None"
| "parse_array (Suc n) buffer len pos s capacity simple =
     (case skip_whitespace buffer len pos of
        Inl e \<Rightarrow> Some (Inl e)
      | Inr pos' \<Rightarrow>
          (case rd buffer pos' of
             Inl e \<Rightarrow> Some (Inl e)
           | Inr c \<Rightarrow>
               if c = CHR '']'' then
                 (case skip_whitespace buffer len (pos' + 1) of
                    Inl e \<Rightarrow> Some (Inl e)
                  | Inr pos'' \<Rightarrow> Some (Inr (pos'', s)))
               else parse_array_loop n buffer len pos' 0 s capacity simple))"
| "parse_array_loop 0 buffer len pos last_tok s capacity simple = None"
| "parse_array_loop (Suc n) buffer len pos last_tok s capacity simple =
     (if pos < len then
        (case parse_value n buffer len pos
                (s\<lparr>tokens := set_token_id (tokens s) capacity (cur s) 0 0\<rparr>)
                capacity simple of
           None \<Rightarrow> None
         | Some (Inl e) \<Rightarrow> Some (Inl e)
         | Some (Inr (pos', s')) \<Rightarrow>
             if pos' = STRING_NPOS then Some (Inr (STRING_NPOS, s'))
             else
               (let s'' = (if last_tok \<noteq> 0
                           then s'\<lparr>tokens := set_token_sibling (tokens s') capacity last_tok (cur s)\<rparr>
                           else s')
                in case skip_whitespace buffer len pos' of
                     Inl e \<Rightarrow> Some (Inl e)
                   | Inr p \<Rightarrow>
                       (case rd buffer p of
                          Inl e \<Rightarrow> Some (Inl e)
                        | Inr c \<Rightarrow>
                            if c = CHR '','' then
                              parse_array_loop n buffer len (p + 1) (cur s) s'' capacity simple
                            else if c = CHR '']'' then Some (Inr (p + 1, s''))
                            else if \<not> simple then Some (Inr (STRING_NPOS, s''))
                            else parse_array_loop n buffer len p (cur s) s'' capacity simple)))
      else Some (Inr (STRING_NPOS, s)))"

  apply pat_completeness
  apply (simp_all only: sum.inject prod.inject nat.inject sum.distinct nat.distinct)
  apply blast+
  done
termination
  by (relation "measure (\<lambda>x. case x of
          Inl (Inl (n, _)) \<Rightarrow> n | Inl (Inr (n, _)) \<Rightarrow> n | Inr (Inl (n, _)) \<Rightarrow> n
        | Inr (Inr (Inl (n, _))) \<Rightarrow> n | Inr (Inr (Inr (n, _))) \<Rightarrow> n)")
     simp_all

subsection \<open>Entry points (json.c, lines 331 to 356)\<close>

text \<open>
  The last two statements of both entry points: the count is 0 when the parser returned
  \<^verbatim>\<open>STRING_NPOS\<close> and the 32-bit counter otherwise. The token array that was written into
  is returned with the count.
\<close>

definition parse_result :: "size_t \<times> parse_state \<Rightarrow> size_t \<times> token_store" where
  "parse_result r =
     (case r of (pos, s) \<Rightarrow> (if pos = STRING_NPOS then 0 else ucast (cur s), tokens s))"

text \<open>Lines 333 to 336 of \<^verbatim>\<open>json_parse\<close>: the first slot is reset, then the value is parsed.\<close>

definition json_parse_run ::
  "nat \<Rightarrow> string \<Rightarrow> size_t \<Rightarrow> token_store \<Rightarrow> size_t \<Rightarrow> (error + size_t \<times> parse_state) option" where
  "json_parse_run fuel buffer len toks capacity =
     (let toks1 = set_token_id toks capacity 0 0 0;
          toks2 = set_token_primitive toks1 capacity 0 JSON_UNDEFINED 0 0
      in parse_value fuel buffer len 0 \<lparr>tokens = toks2, current = 0\<rparr> capacity False)"

definition json_parse ::
  "nat \<Rightarrow> string \<Rightarrow> size_t \<Rightarrow> token_store \<Rightarrow> size_t \<Rightarrow> (error + size_t \<times> token_store) option" where
  "json_parse fuel buffer len toks capacity =
     map_option (map_sum id parse_result) (json_parse_run fuel buffer len toks capacity)"

text \<open>
  Lines 343 to 353 of \<^verbatim>\<open>sjson_parse\<close>: an input that does not start with a brace gets a
  root object and is parsed as the body of an object; any other input is parsed as a value.
\<close>

definition sjson_parse_run ::
  "nat \<Rightarrow> string \<Rightarrow> size_t \<Rightarrow> token_store \<Rightarrow> size_t \<Rightarrow> (error + size_t \<times> parse_state) option" where
  "sjson_parse_run fuel buffer len toks capacity =
     (case skip_whitespace buffer len 0 of
        Inl e \<Rightarrow> Some (Inl e)
      | Inr pos \<Rightarrow>
          if pos < len then
            (case rd buffer pos of
               Inl e \<Rightarrow> Some (Inl e)
             | Inr c \<Rightarrow>
                 if c \<noteq> CHR ''{'' then
                   parse_object fuel buffer len pos
                     (emit_complex \<lparr>tokens = set_token_id toks capacity 0 0 0, current = 0\<rparr>
                        capacity JSON_OBJECT)
                     capacity True
                 else parse_value fuel buffer len pos \<lparr>tokens = toks, current = 0\<rparr>
                        capacity True)
          else parse_value fuel buffer len pos \<lparr>tokens = toks, current = 0\<rparr> capacity True)"

definition sjson_parse ::
  "nat \<Rightarrow> string \<Rightarrow> size_t \<Rightarrow> token_store \<Rightarrow> size_t \<Rightarrow> (error + size_t \<times> token_store) option" where
  "sjson_parse fuel buffer len toks capacity =
     map_option (map_sum id parse_result) (sjson_parse_run fuel buffer len toks capacity)"

subsection \<open>Observations and sample token arrays\<close>

text \<open>What the caller sees of a call besides the token array: the returned count.\<close>

definition count_of :: "(error + size_t \<times> token_store) option \<Rightarrow> (error + size_t) option" where
  "count_of r = map_option (map_sum id fst) r"

text \<open>A token array that was cleared before the call.\<close>

definition zero_token :: json_token_t where
  "zero_token = \<lparr>tok_id = 0, tok_id_length = 0, tok_value = 0, tok_value_length = 0,
     tok_child = 0, tok_sibling = 0, tok_type = JSON_UNDEFINED\<rparr>"

definition zero_tokens :: token_store where
  "zero_tokens i = zero_token"

text \<open>A token array that was not cleared: every field of every slot holds 99.\<close>

definition stale_token :: json_token_t where
  "stale_token = \<lparr>tok_id = 99, tok_id_length = 99, tok_value = 99, tok_value_length = 99,
     tok_child = 99, tok_sibling = 99, tok_type = JSON_STRING\<rparr>"

definition stale_tokens :: token_store where
  "stale_tokens i = stale_token"



subsection \<open>Traces of token writes\<close>


text \<open>The first write of a successful \<^verbatim>\<open>parse_value\<close>: the token of the value itself.\<close>

definition emitted :: "size_t \<Rightarrow> parse_state \<Rightarrow> parse_state \<Rightarrow> bool" where
  "emitted capacity s s' \<longleftrightarrow>
     (\<exists>ty v l. (ty = JSON_PRIMITIVE \<or> ty = JSON_STRING) \<and>
        s' = emit_primitive s capacity ty v l) \<or>
     (\<exists>ty. (ty = JSON_OBJECT \<or> ty = JSON_ARRAY) \<and> s' = emit_complex s capacity ty)"



subsection \<open>Links between tokens\<close>


text \<open>
  \<open>links_ok capacity s\<close>: every token produced so far that has a slot in the array has a
  type; an Object or an Array has its first child at the next index; a Primitive or a String
  has no child; and a sibling link that is set points to a later index, at most the index
  of the next token to be produced.
\<close>

definition links_ok :: "size_t \<Rightarrow> parse_state \<Rightarrow> bool" where
  "links_ok capacity s \<longleftrightarrow>
     (\<forall>i. i < current s \<and> i < unat capacity \<longrightarrow>
        tok_type (tokens s i) \<noteq> JSON_UNDEFINED \<and>
        (tok_type (tokens s i) = JSON_OBJECT \<or> tok_type (tokens s i) = JSON_ARRAY \<longrightarrow>
           unat (tok_child (tokens s i)) = i + 1) \<and>
        (tok_type (tokens s i) = JSON_PRIMITIVE \<or> tok_type (tokens s i) = JSON_STRING \<longrightarrow>
           tok_child (tokens s i) = 0) \<and>
        (tok_sibling (tokens s i) \<noteq> 0 \<longrightarrow>
           i < unat (tok_sibling (tokens s i)) \<and> unat (tok_sibling (tokens s i)) \<le> current s))"


section \<open>Properties\<close>

subsection \<open>Token writes\<close>

lemma current_emit:
  "current (emit_primitive s capacity ty v l) = Suc (current s)"
  "current (emit_complex s capacity ty) = Suc (current s)"
  by (simp_all add: emit_primitive_def emit_complex_def)

lemma tokens_emit:
  "tokens (emit_primitive s capacity ty v l) =
     set_token_primitive (tokens s) capacity (cur s) ty v l"
  "tokens (emit_complex s capacity ty) = set_token_complex (tokens s) capacity (cur s) ty"
  by (simp_all add: emit_primitive_def emit_complex_def)

lemma cur_simps:
  "cur (s\<lparr>tokens := t\<rparr>) = cur s"
  "cur \<lparr>tokens = t, current = k\<rparr> = word_of_nat k"
  "cur (emit_primitive s capacity ty v l) = cur s + 1"
  "cur (emit_complex s capacity ty) = cur s + 1"
  by (simp_all add: cur_def emit_primitive_def emit_complex_def)

lemma is_valid_set_token_primitive:
  "is_valid_token (set_token_primitive t capacity i ty v l) capacity j =
     (if j = i then (ucast i < capacity \<longrightarrow> ty \<noteq> JSON_UNDEFINED)
      else is_valid_token t capacity j)"
  by (auto simp: is_valid_token_def set_token_primitive_def get_token_def
      dest!: word_unat_eq_iff [THEN iffD2] split: option.splits if_splits)

lemma is_valid_set_token_complex:
  "is_valid_token (set_token_complex t capacity i ty) capacity j =
     (if j = i then (ucast i < capacity \<longrightarrow> ty \<noteq> JSON_UNDEFINED)
      else is_valid_token t capacity j)"
  by (auto simp: is_valid_token_def set_token_complex_def get_token_def
      dest!: word_unat_eq_iff [THEN iffD2] split: option.splits if_splits)

lemma is_valid_set_token_id:
  "is_valid_token (set_token_id t capacity i a b) capacity j = is_valid_token t capacity j"
  by (auto simp: is_valid_token_def set_token_id_def get_token_def split: option.splits if_splits)

lemma is_valid_set_token_sibling:
  "is_valid_token (set_token_sibling t capacity i v) capacity j = is_valid_token t capacity j"
  by (auto simp: is_valid_token_def set_token_sibling_def get_token_def
      split: option.splits if_splits)

lemmas is_valid_simps = is_valid_set_token_primitive is_valid_set_token_complex
  is_valid_set_token_id is_valid_set_token_sibling

subsection \<open>Running the parser on a given input\<close>

text \<open>
  The facts below unfold the scanners on a literal buffer. The token writes stay folded, so
  that a run is computed once for every capacity.
\<close>

lemmas lex_simps = skip_whitespace.simps u_escape.simps parse_string_loop.simps
  parse_number_loop.simps parse_string_def parse_number_def rd_def is_whitespace_def
  is_token_delimiter_def is_hex_digit_def is_simple_escape_def is_number_start_def
  STRING_NPOS_def

lemmas branch_simps = skip_terminating_quote_def parse_value_number_def string_equal_def
  match_literal_def parse_value_string_at_def parse_value_string_def parse_value_literal_def
  parse_object_key_at_def parse_object_key_def parse_object_member_end_def

lemmas entry_simps = parse_result_def json_parse_run_def json_parse_def sjson_parse_run_def
  sjson_parse_def count_of_def

lemmas run_simps = Let_def entry_simps lex_simps branch_simps current_emit tokens_emit
  cur_simps is_valid_simps

lemmas write_simps = emit_primitive_def emit_complex_def set_token_primitive_def
  set_token_complex_def set_token_id_def set_token_sibling_def get_token_def

lemma fuel_simps:
  "n + 1 = Suc n"
  "n + 2 = Suc (Suc n)"
  "n + 3 = Suc (Suc (Suc n))"
  "n + 4 = Suc (Suc (Suc (Suc n)))"
  "n + 5 = Suc (Suc (Suc (Suc (Suc n))))"
  "n + 7 = Suc (Suc (Suc (Suc (Suc (Suc (Suc n))))))"
  by simp_all

lemma capacity_ge_2:
  fixes capacity :: size_t
  assumes "2 \<le> capacity"
  shows "0 < capacity" and "1 < capacity"
  using assms by unat_arith+

subsection \<open>Numbers with a sign\<close>

text \<open>
  Claim C3 says that the strict parse of the seven bytes \<open>-0.5e-3\<close> yields one Primitive
  token that spans them, the number scan accepting an optional leading minus sign. The code
  does not: in \<^verbatim>\<open>parse_number\<close> a minus sign at the first position passes the test of line
  126 and then meets the test \<^verbatim>\<open>(c < '0') || (c > '9')\<close> of line 143, which rejects it, so
  the count is 0 for every capacity and whatever follows the seven bytes in memory. The same
  number without its sign is accepted with count 1.
\<close>

theorem leading_minus_rejected:
  "parse_number (''-0.5e-3'' @ rest) 7 0 = Inr STRING_NPOS \<and>
   count_of (json_parse (n + 1) (''-0.5e-3'' @ rest) 7 toks capacity) = Some (Inr 0) \<and>
   count_of (json_parse (n + 1) (''0.5e-3'' @ rest) 6 toks capacity) = Some (Inr 1)"
  by (simp add: fuel_simps run_simps)

theorem leading_minus_rejected_witness:
  "parse_number ''-0.5e-3'' 7 0 = Inr STRING_NPOS \<and>
   count_of (json_parse 1 ''-0.5e-3'' 7 zero_tokens 1) = Some (Inr 0) \<and>
   count_of (json_parse 1 ''0.5e-3'' 6 zero_tokens 1) = Some (Inr 1)"
  using leading_minus_rejected [where n = 0 and rest = "[]" and toks = zero_tokens
      and capacity = 1]
  by simp

subsection \<open>The literals true and false\<close>

text \<open>
  Claim C4 says that \<open>true\<close> and \<open>false\<close> parse as one Primitive token of length 4 and 5
  when a delimiter or the end of the buffer follows, so that the strict parse of the four
  bytes \<open>true\<close> has count 1, and that of \<open>truex\<close> count 0. In the code the test
  \<^verbatim>\<open>length - pos >= 4\<close> of line 293 (and \<^verbatim>\<open>>= 5\<close> of line 299) asks for the delimiter
  inside the buffer: a literal that ends the buffer is rejected in strict mode, while the
  same literal followed by a blank is accepted, and \<open>truex\<close> is rejected as claimed.
\<close>

theorem literal_at_end_of_buffer_rejected:
  "count_of (json_parse (n + 1) (''true'' @ rest) 4 toks capacity) = Some (Inr 0) \<and>
   count_of (json_parse (n + 1) (''false'' @ rest) 5 toks capacity) = Some (Inr 0) \<and>
   count_of (json_parse (n + 1) (''truex'' @ rest) 5 toks capacity) = Some (Inr 0) \<and>
   count_of (json_parse (n + 1) (''true '' @ rest) 5 toks capacity) = Some (Inr 1) \<and>
   count_of (json_parse (n + 1) (''false '' @ rest) 6 toks capacity) = Some (Inr 1)"
  by (simp add: fuel_simps run_simps)

theorem literal_at_end_of_buffer_rejected_witness:
  "count_of (json_parse 1 ''true'' 4 zero_tokens 1) = Some (Inr 0) \<and>
   count_of (json_parse 1 ''false'' 5 zero_tokens 1) = Some (Inr 0) \<and>
   count_of (json_parse 1 ''truex'' 5 zero_tokens 1) = Some (Inr 0) \<and>
   count_of (json_parse 1 ''true '' 5 zero_tokens 1) = Some (Inr 1) \<and>
   count_of (json_parse 1 ''false '' 6 zero_tokens 1) = Some (Inr 1)"
  using literal_at_end_of_buffer_rejected [where n = 0 and rest = "[]" and toks = zero_tokens
      and capacity = 1]
  by simp

subsection \<open>Valid values that the strict parser rejects\<close>

text \<open>
  Claim C2 says that the entry points return 0 exactly when parsing fails, and that every
  syntactically valid value of the strict grammar gives a count of at least 1. The two-byte
  value \<open>-1\<close> and the array \<open>[-1]\<close> are valid and are rejected with count 0, by the defect in
  \<^verbatim>\<open>parse_number\<close> that claim C3 meets; the unsigned \<open>[1]\<close> is accepted with two tokens.
\<close>

theorem valid_value_rejected:
  "count_of (json_parse (n + 1) (''-1'' @ rest) 2 toks capacity) = Some (Inr 0) \<and>
   count_of (json_parse (n + 4) (''[-1]'' @ rest) 4 toks capacity) = Some (Inr 0) \<and>
   count_of (json_parse (n + 4) (''[1]'' @ rest) 3 toks capacity) = Some (Inr 2)"
  by (simp add: fuel_simps run_simps)

theorem valid_value_rejected_witness:
  "count_of (json_parse 1 ''-1'' 2 zero_tokens 2) = Some (Inr 0) \<and>
   count_of (json_parse 4 ''[-1]'' 4 zero_tokens 2) = Some (Inr 0) \<and>
   count_of (json_parse 4 ''[1]'' 3 zero_tokens 2) = Some (Inr 2)"
  using valid_value_rejected [where n = 0 and rest = "[]" and toks = zero_tokens
      and capacity = 2]
  by simp

subsection \<open>Trailing comma in an object\<close>

text \<open>
  Claim C6 says that in an object a comma with no member after it fails, so that the strict
  parse of \<open>{"a":1,}\<close> returns 0. The code accepts it: the comma branch of \<^verbatim>\<open>parse_object\<close>
  clears \<^verbatim>\<open>last\<close>, and the brace branch then returns the position. The count is 2, and
  the member is left with a sibling link to slot 2, a token that is never produced. The
  array parser does reject the trailing comma of \<open>[1,]\<close> in strict mode.
\<close>

theorem trailing_comma_accepted:
  \<open>count_of (json_parse (n + 5) (''{"a":1,}'' @ rest) 8 toks capacity) = Some (Inr 2) \<and>
   (2 \<le> capacity \<longrightarrow>
      (\<exists>toks'. json_parse (n + 5) (''{"a":1,}'' @ rest) 8 toks capacity = Some (Inr (2, toks')) \<and>
         tok_sibling (toks' 1) = 2)) \<and>
   count_of (json_parse (n + 5) (''[1,]'' @ rest) 4 toks capacity) = Some (Inr 0)\<close>
proof (intro conjI impI)
  show \<open>count_of (json_parse (n + 5) (''{"a":1,}'' @ rest) 8 toks capacity) = Some (Inr 2)\<close>
    by (simp add: fuel_simps run_simps)
  show \<open>count_of (json_parse (n + 5) (''[1,]'' @ rest) 4 toks capacity) = Some (Inr 0)\<close>
    by (simp add: fuel_simps run_simps)
  assume "2 \<le> capacity"
  note cap = capacity_ge_2 [OF this]
  show \<open>\<exists>toks'. json_parse (n + 5) (''{"a":1,}'' @ rest) 8 toks capacity = Some (Inr (2, toks')) \<and>
         tok_sibling (toks' 1) = 2\<close>
    by (simp add: fuel_simps run_simps) (simp add: write_simps cap)
qed

theorem trailing_comma_accepted_witness:
  \<open>count_of (json_parse 5 ''{"a":1,}'' 8 zero_tokens 2) = Some (Inr 2) \<and>
   (\<exists>toks'. json_parse 5 ''{"a":1,}'' 8 zero_tokens 2 = Some (Inr (2, toks')) \<and>
      tok_sibling (toks' 1) = 2) \<and>
   count_of (json_parse 5 ''[1,]'' 4 zero_tokens 2) = Some (Inr 0)\<close>
  using trailing_comma_accepted [where n = 0 and rest = "[]" and toks = zero_tokens
      and capacity = 2]
  by simp

subsection \<open>The implicit root object of the simplified grammar\<close>

text \<open>
  Claim C7: the simplified parse of the three bytes \<open>a=1\<close> returns count 2; token 0 is the
  root Object made by the entry point, with first child 1, and token 1 is a Primitive whose
  key span is (0, 1) and whose value span is (2, 1). This holds for every token array of
  capacity at least 2, with three units of fuel or more, whatever follows the three bytes
  in memory.
\<close>

theorem sjson_implicit_root:
  assumes "2 \<le> capacity"
  shows "\<exists>toks'. sjson_parse (n + 3) (''a=1'' @ rest) 3 toks capacity = Some (Inr (2, toks')) \<and>
           tok_type (toks' 0) = JSON_OBJECT \<and> tok_child (toks' 0) = 1 \<and>
           tok_type (toks' 1) = JSON_PRIMITIVE \<and>
           tok_id (toks' 1) = 0 \<and> tok_id_length (toks' 1) = 1 \<and>
           tok_value (toks' 1) = 2 \<and> tok_value_length (toks' 1) = 1"
proof -
  note cap = capacity_ge_2 [OF assms]
  show ?thesis
    by (simp add: fuel_simps run_simps) (simp add: write_simps cap)
qed

theorem sjson_implicit_root_witness:
  "\<exists>toks'. sjson_parse 3 ''a=1'' 3 zero_tokens 2 = Some (Inr (2, toks')) \<and>
     tok_type (toks' 0) = JSON_OBJECT \<and> tok_child (toks' 0) = 1 \<and>
     tok_type (toks' 1) = JSON_PRIMITIVE \<and>
     tok_id (toks' 1) = 0 \<and> tok_id_length (toks' 1) = 1 \<and>
     tok_value (toks' 1) = 2 \<and> tok_value_length (toks' 1) = 1"
  using sjson_implicit_root [where n = 0 and rest = "[]" and toks = zero_tokens
      and capacity = 2]
  by simp

subsection \<open>Reads at the declared length\<close>

text \<open>
  Claim C9: for some inputs the byte at the index equal to the declared length is read
  without a test against the length: after the key of an object member (line 212), at the
  start of an array (line 237) and after an array element (lines 250 and 252). When the
  readable bytes end with the buffer, the simplified parse of \<open>a\<close> and the strict parses of
  \<open>[\<close> and \<open>[1\<close> end in a read at index 1, 1 and 2, the declared length. When one more byte
  \<open>c\<close> is readable behind the one-byte buffer \<open>[\<close>, that byte decides the result.
\<close>

theorem read_at_declared_length:
  "sjson_parse (n + 2) ''a'' 1 toks capacity = Some (Inl (OutOfBounds 1)) \<and>
   json_parse (n + 2) ''['' 1 toks capacity = Some (Inl (OutOfBounds 1)) \<and>
   json_parse (n + 4) ''[1'' 2 toks capacity = Some (Inl (OutOfBounds 2)) \<and>
   count_of (json_parse (n + 3) (''['' @ c # rest) 1 toks capacity) =
     Some (Inr (if c = CHR '']'' then 1 else 0))"
  by (simp add: fuel_simps run_simps)

theorem read_at_declared_length_witness:
  "sjson_parse 2 ''a'' 1 zero_tokens 1 = Some (Inl (OutOfBounds 1)) \<and>
   json_parse 2 ''['' 1 zero_tokens 1 = Some (Inl (OutOfBounds 1)) \<and>
   json_parse 4 ''[1'' 2 zero_tokens 1 = Some (Inl (OutOfBounds 2)) \<and>
   count_of (json_parse 3 ''[]'' 1 zero_tokens 1) = Some (Inr 1)"
  using read_at_declared_length [where n = 0 and c = "CHR '']''" and rest = "[]"
      and toks = zero_tokens and capacity = 1]
  by (simp add: numeral_2_eq_2)

subsection \<open>The key span of the root in simplified mode\<close>

text \<open>
  Claim C10 says that after a successful parse every token below the count and the capacity
  has its key span and its value span inside the input buffer. \<^verbatim>\<open>json_parse\<close> resets the key
  span of slot 0 (line 334), and so does \<^verbatim>\<open>sjson_parse\<close> for an input without a brace
  (line 346); for an input that starts with a brace \<^verbatim>\<open>sjson_parse\<close> calls \<^verbatim>\<open>parse_value\<close>
  at once, and the key span of the root keeps what the slot held before the call. For the
  two bytes \<open>{}\<close> the count is 1 and the root is an Object whose key span is the one of the
  caller's slot 0.
\<close>

theorem sjson_root_key_span_not_reset:
  "sjson_parse (n + 3) (''{}'' @ rest) 2 toks capacity =
     Some (Inr (1, set_token_complex toks capacity 0 JSON_OBJECT)) \<and>
   tok_id (set_token_complex toks capacity 0 JSON_OBJECT 0) = tok_id (toks 0) \<and>
   tok_id_length (set_token_complex toks capacity 0 JSON_OBJECT 0) = tok_id_length (toks 0)"
  by (simp add: fuel_simps run_simps) (simp add: write_simps)

theorem sjson_root_key_span_not_reset_witness:
  "\<exists>toks'. sjson_parse 3 ''{}'' 2 stale_tokens 1 = Some (Inr (1, toks')) \<and>
     tok_type (toks' 0) = JSON_OBJECT \<and>
     unat (tok_id (toks' 0)) + unat (tok_id_length (toks' 0)) = 198 \<and>
     \<not> unat (tok_id (toks' 0)) + unat (tok_id_length (toks' 0)) \<le> length ''{}''"
  using sjson_root_key_span_not_reset [where n = 0 and rest = "[]" and toks = stale_tokens
      and capacity = 1]
  by (simp add: write_simps stale_tokens_def stale_token_def)

subsection \<open>Traces of token writes compose\<close>









subsection \<open>Every parser writes through the four token operations\<close>
















text \<open>What a sequence of writes preserves.\<close>

lemma unat_ucast_index: "unat (ucast (i :: uint) :: size_t) = unat i"
  by (simp add: unsigned_ucast_eq take_bit_nat_eq_self_iff)
     (rule less_trans [OF unsigned_less], simp)
















subsection \<open>Control flow does not depend on the token array\<close>





























subsection \<open>Capacity overflow\<close>



subsection \<open>The links of the tokens produced\<close>












text \<open>Each of the four token writes keeps the links well formed.\<close>

lemma unat_index: "k < 2 ^ 32 \<Longrightarrow> unat (word_of_nat k :: uint) = k"
  by (simp add: unat_of_nat)

lemma get_token_index:
  "k < 2 ^ 32 \<Longrightarrow>
   get_token capacity (word_of_nat k) = (if k < unat capacity then Some k else None)"
  by (simp add: get_token_def word_less_nat_alt unat_ucast_index unat_index)

lemma links_ok_emit_primitive:
  assumes "links_ok capacity s" and "current s < 2 ^ 32"
    and "ty = JSON_PRIMITIVE \<or> ty = JSON_STRING"
  shows "links_ok capacity (emit_primitive s capacity ty v l)"
  using assms
  by (auto simp: links_ok_def emit_primitive_def set_token_primitive_def cur_def get_token_index
      less_Suc_eq intro: le_SucI)

lemma links_ok_emit_complex:
  assumes "links_ok capacity s" and "Suc (current s) < 2 ^ 32"
    and "ty = JSON_OBJECT \<or> ty = JSON_ARRAY"
  shows "links_ok capacity (emit_complex s capacity ty)"
proof -
  from assms(2) have "unat (word_of_nat (current s) + 1 :: uint) = Suc (current s)"
    using unat_index [of "Suc (current s)"] by (simp add: add.commute)
  with assms show ?thesis
    by (auto simp: links_ok_def emit_complex_def set_token_complex_def cur_def get_token_index
        less_Suc_eq intro: le_SucI)
qed

lemma links_ok_emitted:
  "emitted capacity s s1 \<Longrightarrow> links_ok capacity s \<Longrightarrow> current s1 < 2 ^ 32 \<Longrightarrow>
   links_ok capacity s1"
  unfolding emitted_def
  by (auto simp: current_emit intro: links_ok_emit_primitive links_ok_emit_complex)





























subsection \<open>More than \<open>2 ^ 32\<close> tokens\<close>












subsection \<open>The separator of array elements\<close>













end
